theory Spec2Isabelle
  imports Main "HOL-Library.Word"
begin

section \<open>Python values handled by the client\<close>

text \<open>
  The values that \<^verbatim>\<open>json.load\<close> produces: \<^verbatim>\<open>None\<close>, booleans, unbounded
  integers, IEEE doubles (kept as their 64 bits), strings, lists and dicts. A string is
  kept as the bytes of its UTF-8 encoding, so equal strings are equal byte sequences. A dict
  is kept as its items in insertion order; \<^verbatim>\<open>d.get(k)\<close> and \<^verbatim>\<open>k in d\<close> are \<open>map_of\<close>.
\<close>

datatype json =
    JNull
  | JBool bool
  | JInt int
  | JFloat "64 word"
  | JStr string
  | JList "json list"
  | JDict "(string \<times> json) list"

text \<open>Python's truth value of an object, as used by \<^verbatim>\<open>if x\<close>, \<^verbatim>\<open>not x\<close> and \<^verbatim>\<open>or\<close>.\<close>

fun truthy :: "json \<Rightarrow> bool" where
  "truthy JNull = False"
| "truthy (JBool b) = b"
| "truthy (JInt i) = (i \<noteq> 0)"
| "truthy (JFloat f) = (take_bit 63 f \<noteq> 0)"
| "truthy (JStr s) = (s \<noteq> [])"
| "truthy (JList xs) = (xs \<noteq> [])"
| "truthy (JDict kvs) = (kvs \<noteq> [])"

text \<open>\<^verbatim>\<open>a or b\<close>: the first operand when it is true, the second otherwise.\<close>

definition py_or :: "json \<Rightarrow> json \<Rightarrow> json" where
  "py_or a b = (if truthy a then a else b)"

text \<open>\<^verbatim>\<open>d.get(k)\<close>: the value stored under the key, \<^verbatim>\<open>None\<close> when the key is absent.\<close>

definition dict_get :: "(string \<times> json) list \<Rightarrow> string \<Rightarrow> json" where
  "dict_get d k = (case map_of d k of None \<Rightarrow> JNull | Some v \<Rightarrow> v)"

text \<open>Exceptions: the class decides which handler catches, the message is what \<^verbatim>\<open>str(e)\<close> gives.\<close>

datatype exn_class =
    JSONDecodeError
  | TypeError
  | OSError
  | ConnectionError
  | Timeout
  | KeyboardInterrupt
  | SystemExit

datatype exn = Exn exn_class string

text \<open>What \<^verbatim>\<open>except Exception\<close> catches: everything but the interpreter's exit signals.\<close>

fun is_Exception :: "exn \<Rightarrow> bool" where
  "is_Exception (Exn c m) = (c \<noteq> KeyboardInterrupt \<and> c \<noteq> SystemExit)"

fun str_exn :: "exn \<Rightarrow> string" where
  "str_exn (Exn c m) = m"

text \<open>
  \<^verbatim>\<open>len\<close> of a string counts its code points: in UTF-8 these are the bytes that are not
  continuation bytes (those from 128 to 191).
\<close>

definition is_continuation :: "char \<Rightarrow> bool" where
  "is_continuation c = (128 \<le> (of_char c :: nat) \<and> (of_char c :: nat) < 192)"

definition code_points :: "string \<Rightarrow> nat" where
  "code_points s = length (filter (\<lambda>c. \<not> is_continuation c) s)"

text \<open>\<^verbatim>\<open>len(x)\<close>: defined on strings, lists and dicts, a \<^verbatim>\<open>TypeError\<close> on the rest.\<close>

fun py_len :: "json \<Rightarrow> exn + nat" where
  "py_len (JStr s) = Inr (code_points s)"
| "py_len (JList xs) = Inr (length xs)"
| "py_len (JDict kvs) = Inr (length kvs)"
| "py_len JNull = Inl (Exn TypeError ''object of type 'NoneType' has no len()'')"
| "py_len (JBool b) = Inl (Exn TypeError ''object of type 'bool' has no len()'')"
| "py_len (JInt i) = Inl (Exn TypeError ''object of type 'int' has no len()'')"
| "py_len (JFloat f) = Inl (Exn TypeError ''object of type 'float' has no len()'')"

text \<open>The decimal digits of a length, as an f-string renders it.\<close>

definition digit_char :: "nat \<Rightarrow> char" where
  "digit_char d = char_of (48 + d)"

fun str_nat :: "nat \<Rightarrow> string" where
  "str_nat n = (if n < 10 then [digit_char n] else str_nat (n div 10) @ [digit_char (n mod 10)])"

declare str_nat.simps [simp del]

section \<open>The world the client runs in\<close>

text \<open>
  Effects are recorded in one trace, in the order the program performs them: a call of
  \<^verbatim>\<open>print\<close> with its arguments, a frame handed to \<^verbatim>\<open>ws.send\<close>, a connection
  attempt, a \<^verbatim>\<open>time.sleep\<close> with its duration.
\<close>

datatype pyval = PyStr string | PyJson json | PyExn exn

datatype event =
    Print "pyval list"
  | Send string
  | Connect string
  | Sleep nat

text \<open>
  What is at a path: a file with its text, or something that exists but that \<^verbatim>\<open>open\<close>
  refuses (a directory, a file that may not be read), with the exception \<^verbatim>\<open>open\<close> raises.
\<close>

datatype entry = File string | Unreadable exn

record world =
  files :: "string \<Rightarrow> entry option"
  events :: "event list"
  attempts :: nat

text \<open>What the WebSocket library reports during one connection, through the callbacks.\<close>

datatype ws_callback =
    Opened
  | Message string
  | Error exn
  | Closed "int option" "string option"

text \<open>
  The library functions the client calls are parameters: the JSON parser (\<open>Inl\<close> carries the
  message of the \<^verbatim>\<open>JSONDecodeError\<close>), the JSON printer, \<^verbatim>\<open>requests.post\<close> (url, body,
  headers, timeout; it raises, or returns the response's text) and what the network does on the
  n-th WebSocket connection.
\<close>

record lib =
  json_loads :: "string \<Rightarrow> string + json"
  json_dumps :: "json \<Rightarrow> string"
  requests_post :: "string \<Rightarrow> string \<Rightarrow> (string \<times> string) list \<Rightarrow> nat \<Rightarrow> exn + string"
  network :: "nat \<Rightarrow> ws_callback list"

definition print :: "pyval list \<Rightarrow> world \<Rightarrow> world" where
  "print args w = w\<lparr>events := events w @ [Print args]\<rparr>"

definition ws_send :: "string \<Rightarrow> world \<Rightarrow> world" where
  "ws_send frame w = w\<lparr>events := events w @ [Send frame]\<rparr>"

definition sleep :: "nat \<Rightarrow> world \<Rightarrow> world" where
  "sleep d w = w\<lparr>events := events w @ [Sleep d]\<rparr>"

text \<open>\<^verbatim>\<open>json.loads\<close> and \<^verbatim>\<open>response.json()\<close>: the parser's failure is the exception raised.\<close>

definition loads :: "lib \<Rightarrow> string \<Rightarrow> exn + json" where
  "loads l s = (case json_loads l s of Inl m \<Rightarrow> Inl (Exn JSONDecodeError m) | Inr v \<Rightarrow> Inr v)"

section \<open>Constants\<close>

definition REST_API_URL :: string where
  "REST_API_URL = ''http://192.168.0.40:8080/api/v1''"

definition WS_API_URL :: string where
  "WS_API_URL = ''ws://192.168.0.40:8080/ws/subscribe''"

definition TAG_JSON_PATH :: string where
  "TAG_JSON_PATH = ''tags.json''"

section \<open>REST client\<close>

text \<open>
  Both calls run \<^verbatim>\<open>requests.post\<close> and \<^verbatim>\<open>response.json()\<close> inside
  \<^verbatim>\<open>try ... except Exception\<close>: an exception of that class is printed and the call returns;
  anything else leaves the call.
\<close>

definition read_node :: "lib \<Rightarrow> json \<Rightarrow> world \<Rightarrow> (exn + unit) \<times> world" where
  "read_node l node_id w =
     (let url = REST_API_URL @ ''/read'';
          payload = JDict [(''node_id'', node_id)];
          headers = [(''Content-Type'', ''application/json'')];
          handler = (\<lambda>e. if is_Exception e
                          then (Inr (), print [PyStr (''Read node failed: '' @ str_exn e)] w)
                          else (Inl e, w))
      in case requests_post l url (json_dumps l payload) headers 3 of
           Inl e \<Rightarrow> handler e
         | Inr response \<Rightarrow>
             (case loads l response of
                Inl e \<Rightarrow> handler e
              | Inr v \<Rightarrow> (Inr (), print [PyStr ''Read Response:'', PyJson v] w)))"

definition write_node :: "lib \<Rightarrow> json \<Rightarrow> json \<Rightarrow> json \<Rightarrow> world \<Rightarrow> (exn + unit) \<times> world" where
  "write_node l node_id data_type val w =
     (let url = REST_API_URL @ ''/write'';
          payload = JDict [(''node_id'', node_id), (''data_type'', data_type), (''value'', val)];
          headers = [(''Content-Type'', ''application/json'')];
          handler = (\<lambda>e. if is_Exception e
                          then (Inr (), print [PyStr (''Write node failed: '' @ str_exn e)] w)
                          else (Inl e, w))
      in case requests_post l url (json_dumps l payload) headers 3 of
           Inl e \<Rightarrow> handler e
         | Inr response \<Rightarrow>
             (case loads l response of
                Inl e \<Rightarrow> handler e
              | Inr v \<Rightarrow> (Inr (), print [PyStr ''Write Response:'', PyJson v] w)))"

section \<open>WebSocket callbacks that only print\<close>

definition on_message :: "lib \<Rightarrow> string \<Rightarrow> world \<Rightarrow> (exn + unit) \<times> world" where
  "on_message l message w =
     (case loads l message of
        Inl e \<Rightarrow> (Inl e, w)
      | Inr v \<Rightarrow> (Inr (), print [PyStr ''WebSocket Message:'', PyJson v] w))"

definition on_error :: "exn \<Rightarrow> world \<Rightarrow> (exn + unit) \<times> world" where
  "on_error error w = (Inr (), print [PyStr ''WebSocket Error:'', PyExn error] w)"

definition on_close :: "int option \<Rightarrow> string option \<Rightarrow> world \<Rightarrow> (exn + unit) \<times> world" where
  "on_close close_status_code close_msg w = (Inr (), print [PyStr ''WebSocket Closed''] w)"

section \<open>Tag loader\<close>

text \<open>The default \<^verbatim>\<open>result=None\<close> stands for a fresh empty list.\<close>

definition init_result :: "json list option \<Rightarrow> json list" where
  "init_result result = (case result of None \<Rightarrow> [] | Some r \<Rightarrow> r)"

text \<open>
  The walk appends to one list that every recursive call shares; here the list is passed
  in and returned. The two \<^verbatim>\<open>for\<close> loops are folds over the children and the items.
  The interpreter's recursion limit is not part of the model: the walk has the stack it needs.
\<close>

function (sequential) extract_variable_nodeids :: "json \<Rightarrow> json list option \<Rightarrow> json list" where
  "extract_variable_nodeids (JDict node) result =
     (let result1 = init_result result;
          result2 =
            (if map_of node ''nodeClass'' = Some (JStr ''NodeClassVariable'')
             then (case map_of node ''nodeId'' of
                     Some node_id \<Rightarrow> result1 @ [node_id]
                   | None \<Rightarrow> result1)
             else result1)
      in case map_of node ''children'' of
           Some (JList children) \<Rightarrow>
             fold (\<lambda>child acc. extract_variable_nodeids child (Some acc)) children result2
         | _ \<Rightarrow> result2)"
| "extract_variable_nodeids (JList node) result =
     fold (\<lambda>item acc. extract_variable_nodeids item (Some acc)) node (init_result result)"
| "extract_variable_nodeids _ result = init_result result"
  by pat_completeness auto

lemma size_item: "x \<in> set xs \<Longrightarrow> size x < size (JList xs)"
  by (induction xs) auto

lemma size_map_of: "map_of kvs k = Some v \<Longrightarrow> size v < size (JDict kvs)"
  by (induction kvs) (auto split: if_splits)

lemma size_child:
  assumes "map_of kvs k = Some (JList cs)" and "c \<in> set cs"
  shows "size c < size (JDict kvs)"
proof -
  have "size c < size (JList cs)" using assms(2) by (rule size_item)
  also have "\<dots> < size (JDict kvs)" using assms(1) by (rule size_map_of)
  finally show ?thesis .
qed

termination extract_variable_nodeids
proof (relation "measure (\<lambda>(node, result). size node)")
  show "wf (measure (\<lambda>(node, result). size node))" by simp
next
  fix node :: "(string \<times> json) list" and result x2 x6 child and xc :: "json list"
  assume a: "map_of node ''children'' = Some x2" and b: "x2 = JList x6" and c: "child \<in> set x6"
  from a b have "map_of node ''children'' = Some (JList x6)" by simp
  from size_child [OF this c]
  show "((child, Some xc), JDict node, result) \<in> measure (\<lambda>(node, result). size node)"
    by simp
next
  fix node :: "json list" and result item and xb :: "json list"
  assume "item \<in> set node"
  then have "size item < size (JList node)" by (rule size_item)
  then show "((item, Some xb), JList node, result) \<in> measure (\<lambda>(node, result). size node)"
    by simp
qed

text \<open>
  \<^verbatim>\<open>os.path.exists\<close> holds of whatever is at the path; \<^verbatim>\<open>open\<close> raises on what it
  cannot read; \<^verbatim>\<open>json.load\<close> raises on text that is not JSON. Neither exception is
  caught here.
\<close>

definition load_tags_from_json :: "lib \<Rightarrow> string \<Rightarrow> world \<Rightarrow> (exn + json) \<times> world" where
  "load_tags_from_json l json_path w =
     (case files w json_path of
        None \<Rightarrow>
          (Inr (JList []), print [PyStr (''Tag json file not found: '' @ json_path)] w)
      | Some (Unreadable e) \<Rightarrow> (Inl e, w)
      | Some (File content) \<Rightarrow>
          (case loads l content of
             Inl e \<Rightarrow> (Inl e, w)
           | Inr data \<Rightarrow>
               (let node_ids = extract_variable_nodeids data None
                in if node_ids \<noteq> [] then (Inr (JList node_ids), w)
                   else (case data of
                           JList xs \<Rightarrow> (Inr data, w)
                         | JDict d \<Rightarrow>
                             (Inr (py_or (py_or (dict_get d ''tags'') (dict_get d ''node_ids''))
                                    (JList [])), w)
                         | _ \<Rightarrow> (Inr (JList []), w)))))"

section \<open>Subscription client\<close>

text \<open>
  \<^verbatim>\<open>on_open\<close> runs on a connection that has just opened: \<^verbatim>\<open>ws.send\<close> is taken to
  succeed. The length in the second message is computed before anything is printed, so a
  loader result without a length fails before the print and the send.
\<close>

definition on_open :: "lib \<Rightarrow> world \<Rightarrow> (exn + unit) \<times> world" where
  "on_open l w =
     (let w1 = print [PyStr ''WebSocket Opened''] w
      in case load_tags_from_json l TAG_JSON_PATH w1 of
           (Inl e, w2) \<Rightarrow> (Inl e, w2)
         | (Inr node_ids, w2) \<Rightarrow>
             if \<not> truthy node_ids then
               (let w3 = print [PyStr ''No tags loaded from json, not subscribing.''] w2;
                    subscribe_msg = JDict [(''action'', JStr ''subscribe'')]
                in (Inr (), ws_send (json_dumps l subscribe_msg) w3))
             else
               (case py_len node_ids of
                  Inl e \<Rightarrow> (Inl e, w2)
                | Inr n \<Rightarrow>
                    (let w3 = print [PyStr (''Subscribing to '' @ str_nat n
                                              @ '' tags from json file.'')] w2;
                         subscribe_msg =
                           JDict [(''action'', JStr ''subscribe''), (''node_ids'', node_ids)]
                     in (Inr (), ws_send (json_dumps l subscribe_msg) w3))))"

text \<open>
  \<^verbatim>\<open>ws.run_forever()\<close> is the library's: it connects, calls the callbacks as the network
  dictates and returns once the connection is over. An exception that leaves a callback is
  caught by the library and handed to \<^verbatim>\<open>on_error\<close>.
\<close>

fun dispatch :: "lib \<Rightarrow> ws_callback \<Rightarrow> world \<Rightarrow> (exn + unit) \<times> world" where
  "dispatch l Opened w = on_open l w"
| "dispatch l (Message m) w = on_message l m w"
| "dispatch l (Error e) w = on_error e w"
| "dispatch l (Closed code msg) w = on_close code msg w"

definition callback :: "lib \<Rightarrow> ws_callback \<Rightarrow> world \<Rightarrow> world" where
  "callback l cb w =
     (case dispatch l cb w of
        (Inr u, w') \<Rightarrow> w'
      | (Inl e, w') \<Rightarrow> snd (on_error e w'))"

definition run_forever :: "lib \<Rightarrow> world \<Rightarrow> world" where
  "run_forever l w =
     fold (callback l) (network l (attempts w))
       (w\<lparr>events := events w @ [Connect WS_API_URL], attempts := Suc (attempts w)\<rparr>)"

text \<open>
  \<^verbatim>\<open>run_websocket\<close> is \<^verbatim>\<open>while True\<close> around four statements, with no
  \<^verbatim>\<open>break\<close> and no \<^verbatim>\<open>return\<close>. Its run is followed for a given number of turns:
  \<open>Running w\<close> is the loop still going, in the world \<open>w\<close>, when the turns are used up;
  \<open>Returned w\<close> would be the function having returned.
\<close>

datatype run = Returned world | Running world

fun run_websocket :: "nat \<Rightarrow> lib \<Rightarrow> world \<Rightarrow> run" where
  "run_websocket 0 l w = Running w"
| "run_websocket (Suc turns) l w =
     (let w1 = print [PyStr ''Starting WebSocket connection...''] w;
          w2 = run_forever l w1;
          w3 = print [PyStr ''WebSocket closed. Reconnecting in 5 seconds...''] w2;
          w4 = sleep 5 w3
      in run_websocket turns l w4)"

fun returned :: "run \<Rightarrow> bool" where
  "returned (Returned w) = True"
| "returned (Running w) = False"

fun world_of :: "run \<Rightarrow> world" where
  "world_of (Returned w) = w"
| "world_of (Running w) = w"

section \<open>Notions used to state the properties\<close>

text \<open>What one dict contributes to the walk by itself, and the children the walk visits.\<close>

definition own_nodeid :: "(string \<times> json) list \<Rightarrow> json list" where
  "own_nodeid node =
     (if map_of node ''nodeClass'' = Some (JStr ''NodeClassVariable'')
      then (case map_of node ''nodeId'' of Some node_id \<Rightarrow> [node_id] | None \<Rightarrow> [])
      else [])"

definition child_nodes :: "(string \<times> json) list \<Rightarrow> json list" where
  "child_nodes node = (case map_of node ''children'' of Some (JList cs) \<Rightarrow> cs | _ \<Rightarrow> [])"

text \<open>
  The tag tree as the specification describes it, read off the parsed value whatever the
  order of its keys and whatever other fields it has: the identifiers of the variable-class
  descriptors, depth first, a descriptor before its children, the children in their order.
\<close>

function (sequential) variable_nodeids :: "json \<Rightarrow> json list" where
  "variable_nodeids (JDict node) =
     own_nodeid node @ concat (map variable_nodeids (child_nodes node))"
| "variable_nodeids (JList nodes) = concat (map variable_nodeids nodes)"
| "variable_nodeids v = []"
  by pat_completeness auto

lemma size_child_nodes:
  assumes "c \<in> set (child_nodes node)"
  shows "size c < size (JDict node)"
proof (cases "map_of node ''children''")
  case None
  then show ?thesis using assms by (simp add: child_nodes_def)
next
  case (Some ch)
  show ?thesis
  proof (cases ch)
    case (JList cs)
    then have "c \<in> set cs" using assms Some by (simp add: child_nodes_def)
    with Some JList show ?thesis using size_child [of node "''children''" cs c] by simp
  qed (use assms Some in \<open>simp_all add: child_nodes_def\<close>)
qed

termination variable_nodeids
proof (relation "measure size")
  show "wf (measure size)" by simp
next
  fix node :: "(string \<times> json) list" and c
  assume "c \<in> set (child_nodes node)"
  then have "size c < size (JDict node)" by (rule size_child_nodes)
  then show "(c, JDict node) \<in> measure size" by simp
next
  fix nodes :: "json list" and c
  assume "c \<in> set nodes"
  then have "size c < size (JList nodes)" by (rule size_item)
  then show "(c, JList nodes) \<in> measure size" by simp
qed

text \<open>The value under a key when the key is present and its value is true.\<close>

definition get_true :: "(string \<times> json) list \<Rightarrow> string \<Rightarrow> json option" where
  "get_true d k =
     (case map_of d k of None \<Rightarrow> None | Some v \<Rightarrow> if truthy v then Some v else None)"

text \<open>A value that is neither a list nor a dict.\<close>

fun is_scalar :: "json \<Rightarrow> bool" where
  "is_scalar (JList xs) = False"
| "is_scalar (JDict kvs) = False"
| "is_scalar v = True"

text \<open>Reading the trace: the events added since an earlier world, and the frames sent.\<close>

definition new_events :: "world \<Rightarrow> world \<Rightarrow> event list" where
  "new_events w w' = drop (length (events w)) (events w')"

fun sent :: "event list \<Rightarrow> string list" where
  "sent [] = []"
| "sent (Send frame # es) = frame # sent es"
| "sent (e # es) = sent es"

fun is_attempt :: "event \<Rightarrow> bool" where
  "is_attempt (Connect url) = True"
| "is_attempt e = False"

fun is_sleep :: "event \<Rightarrow> bool" where
  "is_sleep (Sleep d) = True"
| "is_sleep e = False"

text \<open>A stretch of the trace with no connection attempt and no sleep in it.\<close>

definition quiet :: "event list \<Rightarrow> bool" where
  "quiet es = list_all (\<lambda>e. \<not> is_attempt e \<and> \<not> is_sleep e) es"

text \<open>One turn of the reconnect loop around what the callbacks did during the connection.\<close>

definition cycle :: "event list \<Rightarrow> event list" where
  "cycle session =
     [Print [PyStr ''Starting WebSocket connection...''], Connect WS_API_URL]
       @ session
       @ [Print [PyStr ''WebSocket closed. Reconnecting in 5 seconds...''], Sleep 5]"

text \<open>
  Every connection attempt but a first one comes after a sleep of at least 5 since the
  attempt before it. The flag says whether the next attempt is allowed.
\<close>

fun waits_before_reconnect :: "bool \<Rightarrow> event list \<Rightarrow> bool" where
  "waits_before_reconnect ok [] = True"
| "waits_before_reconnect ok (Connect url # es) = (ok \<and> waits_before_reconnect False es)"
| "waits_before_reconnect ok (Sleep d # es) = waits_before_reconnect (ok \<or> 5 \<le> d) es"
| "waits_before_reconnect ok (e # es) = waits_before_reconnect ok es"

section \<open>Concrete settings\<close>

text \<open>
  A parser that reads the text \<open>DATA\<close> as a given value and rejects every other text, a
  printer that tells the two shapes of the subscribe message apart, a network that is down
  for REST and that opens and closes every WebSocket connection.
\<close>

definition stub_loads :: "json \<Rightarrow> string \<Rightarrow> string + json" where
  "stub_loads data s = (if s = ''DATA'' then Inr data else Inl ''Expecting value'')"

fun stub_dumps :: "json \<Rightarrow> string" where
  "stub_dumps (JDict [(k, v)]) = ''{'' @ k @ ''}''"
| "stub_dumps (JDict [(k, v), (k', v')]) = ''{'' @ k @ '','' @ k' @ ''}''"
| "stub_dumps v = ''?''"

definition stub_post :: "string \<Rightarrow> string \<Rightarrow> (string \<times> string) list \<Rightarrow> nat \<Rightarrow> exn + string" where
  "stub_post url body headers timeout = Inl (Exn Timeout ''Read timed out. (read timeout=3)'')"

definition stub_network :: "nat \<Rightarrow> ws_callback list" where
  "stub_network n = [Opened, Closed None None]"

definition stub_lib :: "json \<Rightarrow> lib" where
  "stub_lib data =
     \<lparr>json_loads = stub_loads data, json_dumps = stub_dumps,
      requests_post = stub_post, network = stub_network\<rparr>"

text \<open>Worlds where \<^verbatim>\<open>tags.json\<close> holds the text \<open>DATA\<close>, holds broken text, or is absent.\<close>

definition world_with :: "string \<Rightarrow> world" where
  "world_with content = \<lparr>files = [''tags.json'' \<mapsto> File content], events = [], attempts = 0\<rparr>"

definition world_without :: world where
  "world_without = \<lparr>files = Map.empty, events = [], attempts = 0\<rparr>"

section \<open>The tree walk without its accumulator\<close>

lemma fold_walk:
  assumes "\<And>x acc. x \<in> set xs \<Longrightarrow> f x (Some acc) = acc @ f x None"
  shows "fold (\<lambda>x acc. f x (Some acc)) xs acc = acc @ concat (map (\<lambda>x. f x None) xs)"
  using assms by (induction xs arbitrary: acc) simp_all

lemma extract_init:
  "extract_variable_nodeids node result = init_result result @ extract_variable_nodeids node None"
proof (induction node result rule: extract_variable_nodeids.induct)
  case (1 node result)
  show ?case
  proof (cases "map_of node ''children''")
    case None
    then show ?thesis by (simp add: init_result_def Let_def split: option.splits)
  next
    case (Some ch)
    show ?thesis
    proof (cases ch)
      case (JList cs)
      have step: "extract_variable_nodeids c (Some a) = a @ extract_variable_nodeids c None"
        if "c \<in> set cs" for c a
        using "1.IH" [OF refl refl Some JList that, of a] by (simp add: init_result_def)
      show ?thesis
        using Some JList
        by (simp add: init_result_def Let_def fold_walk [of cs extract_variable_nodeids, OF step]
            split: option.splits)
    qed (use Some in \<open>simp_all add: init_result_def Let_def split: option.splits\<close>)
  qed
next
  case (2 node result)
  have step: "extract_variable_nodeids c (Some a) = a @ extract_variable_nodeids c None"
    if "c \<in> set node" for c a
    using "2.IH" [OF that, of a] by (simp add: init_result_def)
  show ?case
    by (simp add: init_result_def fold_walk [of node extract_variable_nodeids, OF step]
        split: option.splits)
qed (simp_all add: init_result_def)

lemma fold_extract:
  "fold (\<lambda>x acc. extract_variable_nodeids x (Some acc)) xs a
     = a @ concat (map (\<lambda>x. extract_variable_nodeids x None) xs)"
  by (rule fold_walk) (simp add: extract_init [of _ "Some _"] init_result_def)

lemma extract_JList:
  "extract_variable_nodeids (JList xs) None = concat (map (\<lambda>x. extract_variable_nodeids x None) xs)"
  by (simp add: init_result_def fold_extract)

lemma extract_JDict:
  "extract_variable_nodeids (JDict node) None =
     own_nodeid node @ concat (map (\<lambda>c. extract_variable_nodeids c None) (child_nodes node))"
  by (simp add: init_result_def own_nodeid_def child_nodes_def Let_def fold_extract
      split: option.splits json.splits)

lemma extract_scalar: "is_scalar v \<Longrightarrow> extract_variable_nodeids v None = []"
  by (cases v) (simp_all add: init_result_def)

declare extract_variable_nodeids.simps [simp del]

lemma load_parsed:
  assumes "files w json_path = Some (File content)" and "json_loads l content = Inr data"
  shows "load_tags_from_json l json_path w =
           (if extract_variable_nodeids data None \<noteq> []
            then (Inr (JList (extract_variable_nodeids data None)), w)
            else (case data of
                    JList xs \<Rightarrow> (Inr data, w)
                  | JDict d \<Rightarrow>
                      (Inr (py_or (py_or (dict_get d ''tags'') (dict_get d ''node_ids''))
                             (JList [])), w)
                  | _ \<Rightarrow> (Inr (JList []), w)))"
  using assms by (simp add: load_tags_from_json_def loads_def Let_def)

section \<open>The tag file is absent, broken, or holds a scalar\<close>

text \<open>
  C5. For a path at which no file exists the Tag Loader does not raise: it returns the
  empty sequence, and the one thing it does is to print the diagnostic
  \<open>Tag json file not found: <path>\<close>.
\<close>

theorem missing_file_soft:
  assumes "files w json_path = None"
  shows "load_tags_from_json l json_path w
           = (Inr (JList []), print [PyStr (''Tag json file not found: '' @ json_path)] w)"
  using assms by (simp add: load_tags_from_json_def)

theorem missing_file_soft_witness:
  "files world_without ''tags.json'' = None
   \<and> fst (load_tags_from_json (stub_lib JNull) ''tags.json'' world_without) = Inr (JList [])
   \<and> events (snd (load_tags_from_json (stub_lib JNull) ''tags.json'' world_without))
       = [Print [PyStr ''Tag json file not found: tags.json'']]"
proof -
  have h: "files world_without ''tags.json'' = None" by (simp add: world_without_def)
  show ?thesis
    using h missing_file_soft [OF h, of "stub_lib JNull"]
    by (simp add: print_def world_without_def)
qed

text \<open>
  C10. For an existing tag file whose content parses as a value that is neither a mapping
  nor a sequence (a string, a number, a boolean, null) the Tag Loader returns the empty
  sequence, without raising and without printing.
\<close>

theorem scalar_content_empty:
  assumes "files w json_path = Some (File content)"
    and "json_loads l content = Inr data"
    and "is_scalar data"
  shows "load_tags_from_json l json_path w = (Inr (JList []), w)"
  using load_parsed [OF assms(1,2)] assms(3)
  by (cases data) (simp_all add: extract_scalar)

theorem scalar_content_empty_witness:
  "files (world_with ''DATA'') ''tags.json'' = Some (File ''DATA'')
   \<and> json_loads (stub_lib (JInt 42)) ''DATA'' = Inr (JInt 42)
   \<and> is_scalar (JInt 42)
   \<and> load_tags_from_json (stub_lib (JInt 42)) ''tags.json'' (world_with ''DATA'')
       = (Inr (JList []), world_with ''DATA'')"
proof -
  have f: "files (world_with ''DATA'') ''tags.json'' = Some (File ''DATA'')"
    by (simp add: world_with_def)
  have p: "json_loads (stub_lib (JInt 42)) ''DATA'' = Inr (JInt 42)"
    by (simp add: stub_lib_def stub_loads_def)
  have s: "is_scalar (JInt 42)" by simp
  show ?thesis using f p s scalar_content_empty [OF f p s] by simp
qed

lemma load_malformed:
  assumes "files w json_path = Some (File content)" and "json_loads l content = Inl msg"
  shows "load_tags_from_json l json_path w = (Inl (Exn JSONDecodeError msg), w)"
  using assms by (simp add: load_tags_from_json_def loads_def)

lemma files_print [simp]: "files (print args w) = files w"
  by (simp add: print_def)

lemma events_print [simp]: "events (print args w) = events w @ [Print args]"
  by (simp add: print_def)

lemma on_open_raises:
  assumes "load_tags_from_json l TAG_JSON_PATH (print [PyStr ''WebSocket Opened''] w) = (Inl e, w')"
  shows "on_open l w = (Inl e, w')"
  using assms by (simp add: on_open_def)

text \<open>
  C4. For a path whose file is present but whose content is not valid JSON the Tag Loader
  fails with the parser's error and leaves the world as it was. The failure differs from
  the missing-file case, which returns the empty sequence. It is not suppressed: the caller
  \<open>on_open\<close>, reading the tag file, fails with the same error and sends nothing.
\<close>

theorem malformed_json_raises:
  assumes "files w json_path = Some (File content)"
    and "json_loads l content = Inl msg"
  shows "load_tags_from_json l json_path w = (Inl (Exn JSONDecodeError msg), w)
         \<and> (\<forall>w'. files w' json_path = None \<longrightarrow>
               fst (load_tags_from_json l json_path w') = Inr (JList [])
               \<and> fst (load_tags_from_json l json_path w') \<noteq> fst (load_tags_from_json l json_path w))
         \<and> (json_path = TAG_JSON_PATH \<longrightarrow>
               fst (on_open l w) = Inl (Exn JSONDecodeError msg)
               \<and> sent (new_events w (snd (on_open l w))) = [])"
proof (intro conjI allI impI)
  show raised: "load_tags_from_json l json_path w = (Inl (Exn JSONDecodeError msg), w)"
    using assms by (rule load_malformed)
  show "fst (load_tags_from_json l json_path w') = Inr (JList [])"
    if "files w' json_path = None" for w'
    using that by (simp add: load_tags_from_json_def)
  show "fst (load_tags_from_json l json_path w') \<noteq> fst (load_tags_from_json l json_path w)"
    if "files w' json_path = None" for w'
    using that raised by (simp add: load_tags_from_json_def)
next
  assume p: "json_path = TAG_JSON_PATH"
  let ?w1 = "print [PyStr ''WebSocket Opened''] w"
  have "files ?w1 TAG_JSON_PATH = Some (File content)" using assms(1) p by simp
  then have "load_tags_from_json l TAG_JSON_PATH ?w1 = (Inl (Exn JSONDecodeError msg), ?w1)"
    using assms(2) by (rule load_malformed)
  then have o: "on_open l w = (Inl (Exn JSONDecodeError msg), ?w1)" by (rule on_open_raises)
  show "fst (on_open l w) = Inl (Exn JSONDecodeError msg)" using o by simp
  show "sent (new_events w (snd (on_open l w))) = []" using o by (simp add: new_events_def)
qed

theorem malformed_json_raises_witness:
  "files (world_with ''{bad'') ''tags.json'' = Some (File ''{bad'')
   \<and> json_loads (stub_lib JNull) ''{bad'' = Inl ''Expecting value''
   \<and> load_tags_from_json (stub_lib JNull) ''tags.json'' (world_with ''{bad'')
       = (Inl (Exn JSONDecodeError ''Expecting value''), world_with ''{bad'')
   \<and> files world_without ''tags.json'' = None
   \<and> fst (load_tags_from_json (stub_lib JNull) ''tags.json'' world_without) = Inr (JList [])
   \<and> fst (on_open (stub_lib JNull) (world_with ''{bad'')) = Inl (Exn JSONDecodeError ''Expecting value'')"
proof -
  have f: "files (world_with ''{bad'') ''tags.json'' = Some (File ''{bad'')"
    by (simp add: world_with_def)
  have p: "json_loads (stub_lib JNull) ''{bad'' = Inl ''Expecting value''"
    by (simp add: stub_lib_def stub_loads_def)
  have m: "files world_without ''tags.json'' = None" by (simp add: world_without_def)
  show ?thesis
    using f p m malformed_json_raises [OF f p] by (simp add: TAG_JSON_PATH_def)
qed

section \<open>The fallbacks of the tag loader\<close>

lemma extract_strings: "extract_variable_nodeids (JList (map JStr ids)) None = []"
  by (induction ids) (simp_all add: extract_JList extract_scalar)

text \<open>
  C8. When the content of the tag file parses as a flat sequence of node-id strings, the
  walk collects nothing and the Tag Loader returns that sequence unchanged; so it does for
  the list of \<open>a\<close> and \<open>b\<close>.
\<close>

theorem flat_list_unchanged:
  assumes "files w json_path = Some (File content)"
    and "json_loads l content = Inr (JList (map JStr ids))"
  shows "load_tags_from_json l json_path w = (Inr (JList (map JStr ids)), w)"
  using load_parsed [OF assms] by (simp add: extract_strings)

theorem flat_list_unchanged_witness:
  "files (world_with ''DATA'') ''tags.json'' = Some (File ''DATA'')
   \<and> json_loads (stub_lib (JList [JStr ''a'', JStr ''b''])) ''DATA'' = Inr (JList (map JStr [''a'', ''b'']))
   \<and> load_tags_from_json (stub_lib (JList [JStr ''a'', JStr ''b''])) ''tags.json'' (world_with ''DATA'')
       = (Inr (JList [JStr ''a'', JStr ''b'']), world_with ''DATA'')"
proof -
  have f: "files (world_with ''DATA'') ''tags.json'' = Some (File ''DATA'')"
    by (simp add: world_with_def)
  have p: "json_loads (stub_lib (JList [JStr ''a'', JStr ''b''])) ''DATA''
             = Inr (JList (map JStr [''a'', ''b'']))"
    by (simp add: stub_lib_def stub_loads_def)
  show ?thesis using f p flat_list_unchanged [OF f p] by simp
qed



lemma or_chain:
  "py_or (py_or (dict_get d ''tags'') (dict_get d ''node_ids'')) (JList [])
     = (case get_true d ''tags'' of
          Some v \<Rightarrow> v
        | None \<Rightarrow> (case get_true d ''node_ids'' of Some v \<Rightarrow> v | None \<Rightarrow> JList []))"
  by (simp add: py_or_def dict_get_def get_true_def split: option.splits)

text \<open>
  C3, as amended. When the content parses as a mapping from which the walk collects
  nothing, the Tag Loader returns the value under \<open>tags\<close> if that key is present with a
  true value (non-empty, non-zero, not null, not false), else the value under \<open>node_ids\<close>
  if that key is present with a true value, else the empty sequence.
\<close>

theorem mapping_fallback:
  assumes "files w json_path = Some (File content)"
    and "json_loads l content = Inr (JDict d)"
    and "extract_variable_nodeids (JDict d) None = []"
  shows "load_tags_from_json l json_path w =
           (Inr (case get_true d ''tags'' of
                   Some v \<Rightarrow> v
                 | None \<Rightarrow> (case get_true d ''node_ids'' of Some v \<Rightarrow> v | None \<Rightarrow> JList [])),
            w)"
  using load_parsed [OF assms(1,2)] assms(3) by (simp add: or_chain)

lemma extract_flat_dict:
  "map_of d ''nodeClass'' = None \<Longrightarrow> map_of d ''children'' = None
     \<Longrightarrow> extract_variable_nodeids (JDict d) None = []"
  by (simp add: extract_JDict own_nodeid_def child_nodes_def)

theorem mapping_fallback_witness:
  "load_tags_from_json (stub_lib (JDict [(''tags'', JList [JStr ''x''])])) ''tags.json''
       (world_with ''DATA'') = (Inr (JList [JStr ''x'']), world_with ''DATA'')
   \<and> load_tags_from_json (stub_lib (JDict [(''node_ids'', JList [JStr ''y''])])) ''tags.json''
       (world_with ''DATA'') = (Inr (JList [JStr ''y'']), world_with ''DATA'')
   \<and> load_tags_from_json (stub_lib (JDict [(''name'', JStr ''plant'')])) ''tags.json''
       (world_with ''DATA'') = (Inr (JList []), world_with ''DATA'')"
proof -
  have f: "files (world_with ''DATA'') ''tags.json'' = Some (File ''DATA'')"
    by (simp add: world_with_def)
  have p: "json_loads (stub_lib (JDict d)) ''DATA'' = Inr (JDict d)" for d
    by (simp add: stub_lib_def stub_loads_def)
  have x: "extract_variable_nodeids (JDict [(''tags'', JList [JStr ''x''])]) None = []"
    by (simp add: extract_flat_dict)
  have y: "extract_variable_nodeids (JDict [(''node_ids'', JList [JStr ''y''])]) None = []"
    by (simp add: extract_flat_dict)
  have z: "extract_variable_nodeids (JDict [(''name'', JStr ''plant'')]) None = []"
    by (simp add: extract_flat_dict)
  show ?thesis
    using mapping_fallback [OF f p x] mapping_fallback [OF f p y] mapping_fallback [OF f p z]
    by (simp add: get_true_def)
qed

theorem mapping_fallback_counterexample:
  "map_of [(''tags'', JList []), (''node_ids'', JList [JStr ''y''])] ''tags'' = Some (JList [])
   \<and> extract_variable_nodeids (JDict [(''tags'', JList []), (''node_ids'', JList [JStr ''y''])]) None = []
   \<and> fst (load_tags_from_json
            (stub_lib (JDict [(''tags'', JList []), (''node_ids'', JList [JStr ''y''])]))
            ''tags.json'' (world_with ''DATA'')) = Inr (JList [JStr ''y''])
   \<and> fst (load_tags_from_json
            (stub_lib (JDict [(''tags'', JList []), (''node_ids'', JList [JStr ''y''])]))
            ''tags.json'' (world_with ''DATA'')) \<noteq> Inr (JList [])"
proof -
  let ?d = "[(''tags'', JList []), (''node_ids'', JList [JStr ''y''])]"
  have f: "files (world_with ''DATA'') ''tags.json'' = Some (File ''DATA'')"
    by (simp add: world_with_def)
  have p: "json_loads (stub_lib (JDict ?d)) ''DATA'' = Inr (JDict ?d)"
    by (simp add: stub_lib_def stub_loads_def)
  have x: "extract_variable_nodeids (JDict ?d) None = []"
    by (simp add: extract_flat_dict)
  show ?thesis
    using load_parsed [OF f p] x by (simp add: py_or_def dict_get_def)
qed

section \<open>The walk over a tag tree\<close>

lemma extract_preorder: "extract_variable_nodeids v None = variable_nodeids v"
proof (induction v rule: variable_nodeids.induct)
  case (1 node)
  have "map (\<lambda>c. extract_variable_nodeids c None) (child_nodes node)
          = map variable_nodeids (child_nodes node)"
    using "1.IH" by (intro map_cong refl)
  then have "concat (map (\<lambda>c. extract_variable_nodeids c None) (child_nodes node))
          = concat (map variable_nodeids (child_nodes node))"
    by (rule arg_cong)
  then show ?case by (simp add: extract_JDict)
next
  case (2 nodes)
  have "map (\<lambda>c. extract_variable_nodeids c None) nodes = map variable_nodeids nodes"
    using "2.IH" by (intro map_cong refl)
  then have "concat (map (\<lambda>c. extract_variable_nodeids c None) nodes)
          = concat (map variable_nodeids nodes)"
    by (rule arg_cong)
  then show ?case by (simp add: extract_JList)
qed (simp_all add: extract_scalar)

text \<open>Where the tree has a variable-class descriptor, the loader returns the pre-order.\<close>

lemma load_tree_with_variables:
  assumes "files w json_path = Some (File content)"
    and "json_loads l content = Inr data"
    and "variable_nodeids data \<noteq> []"
  shows "load_tags_from_json l json_path w = (Inr (JList (variable_nodeids data)), w)"
  using load_parsed [OF assms(1,2)] assms(3) by (simp add: extract_preorder)

section \<open>The subscribe message\<close>

lemma load_result_files:
  "files w' = files w \<Longrightarrow>
     fst (load_tags_from_json l json_path w') = fst (load_tags_from_json l json_path w)"
  by (simp add: load_tags_from_json_def Let_def
      split: option.splits entry.splits sum.splits json.splits)

lemma load_world:
  "snd (load_tags_from_json l json_path w) =
     (if files w json_path = None
      then print [PyStr (''Tag json file not found: '' @ json_path)] w else w)"
  by (simp add: load_tags_from_json_def Let_def
      split: option.splits entry.splits sum.splits json.splits)

lemma sent_append: "sent (xs @ ys) = sent xs @ sent ys"
  by (induction xs rule: sent.induct) simp_all

lemma events_ws_send [simp]: "events (ws_send frame w) = events w @ [Send frame]"
  by (simp add: ws_send_def)

lemma on_open_list:
  assumes "fst (load_tags_from_json l TAG_JSON_PATH w) = Inr (JList node_ids)"
  shows "fst (on_open l w) = Inr ()
       \<and> sent (new_events w (snd (on_open l w)))
           = [json_dumps l
                (if node_ids = [] then JDict [(''action'', JStr ''subscribe'')]
                 else JDict [(''action'', JStr ''subscribe''), (''node_ids'', JList node_ids)])]"
proof -
  let ?w1 = "print [PyStr ''WebSocket Opened''] w"
  obtain r w2 where ld: "load_tags_from_json l TAG_JSON_PATH ?w1 = (r, w2)"
    by (cases "load_tags_from_json l TAG_JSON_PATH ?w1")
  have "fst (load_tags_from_json l TAG_JSON_PATH ?w1) = Inr (JList node_ids)"
    using assms load_result_files [of ?w1 w l TAG_JSON_PATH] by simp
  then have r: "r = Inr (JList node_ids)" using ld by simp
  have w2: "w2 = (if files w TAG_JSON_PATH = None
                  then print [PyStr (''Tag json file not found: '' @ TAG_JSON_PATH)] ?w1 else ?w1)"
    using load_world [of l TAG_JSON_PATH ?w1] ld by simp
  have ev: "sent (drop (length (events w)) (events w2)) = []"
    using w2 by simp
  have len: "length (events w) \<le> length (events w2)" using w2 by simp
  show ?thesis
    using ld r ev len
    by (simp add: on_open_def Let_def new_events_def sent_append)
qed

text \<open>
  C2, as amended. On a successful WebSocket open on which the Tag Loader returns a
  sequence, \<open>on_open\<close> returns normally and sends exactly one frame: the JSON text of the
  mapping with the single key \<open>action\<close> (and no \<open>node_ids\<close> key) when the sequence is
  empty, and of the mapping with \<open>action\<close> and \<open>node_ids\<close>, the latter holding that
  sequence in the same order, when it is not.
\<close>

theorem subscribe_on_open:
  assumes "fst (load_tags_from_json l TAG_JSON_PATH w) = Inr (JList node_ids)"
  shows "fst (on_open l w) = Inr ()
       \<and> sent (new_events w (snd (on_open l w)))
           = [json_dumps l
                (if node_ids = [] then JDict [(''action'', JStr ''subscribe'')]
                 else JDict [(''action'', JStr ''subscribe''), (''node_ids'', JList node_ids)])]"
  using assms by (rule on_open_list)

theorem subscribe_on_open_witness:
  "fst (load_tags_from_json (stub_lib JNull) TAG_JSON_PATH world_without) = Inr (JList [])
   \<and> fst (on_open (stub_lib JNull) world_without) = Inr ()
   \<and> sent (new_events world_without (snd (on_open (stub_lib JNull) world_without)))
       = [stub_dumps (JDict [(''action'', JStr ''subscribe'')])]
   \<and> fst (load_tags_from_json (stub_lib (JList [JStr ''n1'', JStr ''n2''])) TAG_JSON_PATH
            (world_with ''DATA'')) = Inr (JList [JStr ''n1'', JStr ''n2''])
   \<and> fst (on_open (stub_lib (JList [JStr ''n1'', JStr ''n2''])) (world_with ''DATA'')) = Inr ()
   \<and> sent (new_events (world_with ''DATA'')
             (snd (on_open (stub_lib (JList [JStr ''n1'', JStr ''n2''])) (world_with ''DATA''))))
       = [stub_dumps (JDict [(''action'', JStr ''subscribe''),
                             (''node_ids'', JList [JStr ''n1'', JStr ''n2''])])]"
proof -
  have a: "fst (load_tags_from_json (stub_lib JNull) TAG_JSON_PATH world_without) = Inr (JList [])"
    by (simp add: load_tags_from_json_def world_without_def)
  have f: "files (world_with ''DATA'') TAG_JSON_PATH = Some (File ''DATA'')"
    by (simp add: world_with_def TAG_JSON_PATH_def)
  have p: "json_loads (stub_lib (JList [JStr ''n1'', JStr ''n2''])) ''DATA''
             = Inr (JList (map JStr [''n1'', ''n2'']))"
    by (simp add: stub_lib_def stub_loads_def)
  have b: "fst (load_tags_from_json (stub_lib (JList [JStr ''n1'', JStr ''n2''])) TAG_JSON_PATH
                  (world_with ''DATA'')) = Inr (JList [JStr ''n1'', JStr ''n2''])"
    using load_parsed [OF f p] extract_strings [of "[''n1'', ''n2'']"] by simp
  show ?thesis
    using a b subscribe_on_open [OF a] subscribe_on_open [OF b] by (simp add: stub_lib_def)
qed

theorem subscribe_on_open_counterexample:
  "fst (on_open (stub_lib JNull) (world_with ''{bad'')) = Inl (Exn JSONDecodeError ''Expecting value'')
   \<and> sent (new_events (world_with ''{bad'') (snd (on_open (stub_lib JNull) (world_with ''{bad''))))
       = []
   \<and> length (sent (new_events (world_with ''{bad'')
                (snd (on_open (stub_lib JNull) (world_with ''{bad''))))) \<noteq> 1"
proof -
  let ?w1 = "print [PyStr ''WebSocket Opened''] (world_with ''{bad'')"
  have f: "files ?w1 TAG_JSON_PATH = Some (File ''{bad'')"
    by (simp add: world_with_def TAG_JSON_PATH_def)
  have p: "json_loads (stub_lib JNull) ''{bad'' = Inl ''Expecting value''"
    by (simp add: stub_lib_def stub_loads_def)
  have "on_open (stub_lib JNull) (world_with ''{bad'')
          = (Inl (Exn JSONDecodeError ''Expecting value''), ?w1)"
    using load_malformed [OF f p] by (rule on_open_raises)
  then show ?thesis by (simp add: new_events_def)
qed

section \<open>A tree without variable-class descriptors\<close>

text \<open>
  C1, at a failing input. The tag file holds a sequence of one descriptor of class
  \<open>NodeClassObject\<close>. No descriptor is of the variable class, so the sequence of their
  identifiers is empty; the loader, having collected nothing, takes the branch kept for the
  old flat format and returns the sequence of descriptors itself, which \<open>on_open\<close> then
  sends as \<open>node_ids\<close>. For the same descriptor alone, not in a sequence, the loader returns
  the empty sequence.
\<close>

theorem variable_free_sequence_returned:
  "variable_nodeids
     (JList [JDict [(''nodeClass'', JStr ''NodeClassObject''), (''nodeId'', JStr ''ns=1;i=1'')]])
     = []
   \<and> load_tags_from_json
       (stub_lib (JList [JDict [(''nodeClass'', JStr ''NodeClassObject''),
                                (''nodeId'', JStr ''ns=1;i=1'')]]))
       ''tags.json'' (world_with ''DATA'')
     = (Inr (JList [JDict [(''nodeClass'', JStr ''NodeClassObject''),
                           (''nodeId'', JStr ''ns=1;i=1'')]]),
        world_with ''DATA'')
   \<and> sent (new_events (world_with ''DATA'')
       (snd (on_open
          (stub_lib (JList [JDict [(''nodeClass'', JStr ''NodeClassObject''),
                                   (''nodeId'', JStr ''ns=1;i=1'')]]))
          (world_with ''DATA''))))
     = [stub_dumps
          (JDict [(''action'', JStr ''subscribe''),
                  (''node_ids'',
                   JList [JDict [(''nodeClass'', JStr ''NodeClassObject''),
                                 (''nodeId'', JStr ''ns=1;i=1'')]])])]
   \<and> load_tags_from_json
       (stub_lib (JDict [(''nodeClass'', JStr ''NodeClassObject''), (''nodeId'', JStr ''ns=1;i=1'')]))
       ''tags.json'' (world_with ''DATA'')
     = (Inr (JList []), world_with ''DATA'')"
proof -
  let ?d = "JDict [(''nodeClass'', JStr ''NodeClassObject''), (''nodeId'', JStr ''ns=1;i=1'')]"
  have f: "files (world_with ''DATA'') ''tags.json'' = Some (File ''DATA'')"
    by (simp add: world_with_def)
  have p: "json_loads (stub_lib v) ''DATA'' = Inr v" for v
    by (simp add: stub_lib_def stub_loads_def)
  have d: "variable_nodeids ?d = []"
    by (simp add: own_nodeid_def child_nodes_def)
  have s: "variable_nodeids (JList [?d]) = []"
    using d by simp
  have ls: "load_tags_from_json (stub_lib (JList [?d])) ''tags.json'' (world_with ''DATA'')
              = (Inr (JList [?d]), world_with ''DATA'')"
    using load_parsed [OF f p, of "JList [?d]"] s by (simp add: extract_preorder)
  have ld: "load_tags_from_json (stub_lib ?d) ''tags.json'' (world_with ''DATA'')
              = (Inr (JList []), world_with ''DATA'')"
    using load_parsed [OF f p, of ?d] d
    by (simp add: extract_preorder py_or_def dict_get_def)
  have "fst (load_tags_from_json (stub_lib (JList [?d])) TAG_JSON_PATH (world_with ''DATA''))
          = Inr (JList [?d])"
    using ls by (simp add: TAG_JSON_PATH_def)
  from on_open_list [OF this]
  have o: "sent (new_events (world_with ''DATA'')
              (snd (on_open (stub_lib (JList [?d])) (world_with ''DATA''))))
            = [stub_dumps (JDict [(''action'', JStr ''subscribe''), (''node_ids'', JList [?d])])]"
    by (simp add: stub_lib_def)
  show ?thesis using s ls o ld by simp
qed

section \<open>REST calls that fail\<close>

text \<open>
  C6. When the HTTP request of a REST read or write, made with the timeout 3, fails with a
  connection error or a timeout, the call prints the failure with the error's message and
  returns normally: no exception leaves \<open>read_node\<close> or \<open>write_node\<close>.
\<close>

theorem rest_failure_reported:
  assumes "c = ConnectionError \<or> c = Timeout"
  shows "(requests_post l (REST_API_URL @ ''/read'') (json_dumps l (JDict [(''node_id'', node_id)]))
            [(''Content-Type'', ''application/json'')] 3 = Inl (Exn c msg) \<longrightarrow>
          read_node l node_id w = (Inr (), print [PyStr (''Read node failed: '' @ msg)] w))
       \<and> (requests_post l (REST_API_URL @ ''/write'')
            (json_dumps l (JDict [(''node_id'', node_id), (''data_type'', data_type), (''value'', val)]))
            [(''Content-Type'', ''application/json'')] 3 = Inl (Exn c msg) \<longrightarrow>
          write_node l node_id data_type val w
            = (Inr (), print [PyStr (''Write node failed: '' @ msg)] w))"
  using assms by (auto simp: read_node_def write_node_def Let_def)

theorem rest_failure_reported_witness:
  "read_node (stub_lib JNull) (JStr ''ns=1;i=43920'') world_without
     = (Inr (), print [PyStr ''Read node failed: Read timed out. (read timeout=3)''] world_without)
   \<and> write_node (stub_lib JNull) (JStr ''ns=1;s=myByteString'') (JStr ''String'')
        (JStr ''Hello, World!'') world_without
     = (Inr (), print [PyStr ''Write node failed: Read timed out. (read timeout=3)''] world_without)"
proof -
  have c: "Timeout = ConnectionError \<or> Timeout = Timeout" by simp
  have r: "requests_post (stub_lib JNull) url body headers 3
             = Inl (Exn Timeout ''Read timed out. (read timeout=3)'')" for url body headers
    by (simp add: stub_lib_def stub_post_def)
  show ?thesis
    using rest_failure_reported [OF c, of "stub_lib JNull" "JStr ''ns=1;i=43920''"
        "''Read timed out. (read timeout=3)''" world_without]
      rest_failure_reported [OF c, of "stub_lib JNull" "JStr ''ns=1;s=myByteString''"
        "''Read timed out. (read timeout=3)''" world_without "JStr ''String''"
        "JStr ''Hello, World!''"]
      r
    by simp
qed

section \<open>The reconnect loop\<close>

lemma quiet_Nil [simp]: "quiet []"
  by (simp add: quiet_def)

lemma quiet_append [simp]: "quiet (xs @ ys) \<longleftrightarrow> quiet xs \<and> quiet ys"
  by (simp add: quiet_def)

lemma quiet_Print [simp]: "quiet (Print args # es) \<longleftrightarrow> quiet es"
  by (simp add: quiet_def)

lemma quiet_Send [simp]: "quiet (Send frame # es) \<longleftrightarrow> quiet es"
  by (simp add: quiet_def)

lemma on_open_events:
  "\<exists>es. events (snd (on_open l w)) = events w @ es \<and> quiet es"
proof -
  let ?w1 = "print [PyStr ''WebSocket Opened''] w"
  obtain r w2 where ld: "load_tags_from_json l TAG_JSON_PATH ?w1 = (r, w2)"
    by (cases "load_tags_from_json l TAG_JSON_PATH ?w1")
  have w2: "w2 = (if files w TAG_JSON_PATH = None
                  then print [PyStr (''Tag json file not found: '' @ TAG_JSON_PATH)] ?w1 else ?w1)"
    using load_world [of l TAG_JSON_PATH ?w1] ld by simp
  show ?thesis
    using ld w2 by (auto simp: on_open_def Let_def split: sum.splits)
qed

lemma dispatch_events:
  "\<exists>es. events (snd (dispatch l cb w)) = events w @ es \<and> quiet es"
proof (cases cb)
  case Opened
  then show ?thesis using on_open_events [of l w] by simp
next
  case (Message m)
  then show ?thesis by (auto simp: on_message_def split: sum.splits)
next
  case (Error e)
  then show ?thesis by (simp add: on_error_def)
next
  case (Closed code msg)
  then show ?thesis by (simp add: on_close_def)
qed

lemma callback_events:
  "\<exists>es. events (callback l cb w) = events w @ es \<and> quiet es"
proof -
  obtain r w' where d: "dispatch l cb w = (r, w')" by (cases "dispatch l cb w")
  obtain es where es: "events w' = events w @ es" "quiet es"
    using dispatch_events [of l cb w] d by auto
  show ?thesis
    using d es by (cases r) (simp_all add: callback_def on_error_def)
qed

lemma callbacks_events:
  "\<exists>es. events (fold (callback l) cbs w) = events w @ es \<and> quiet es"
proof (induction cbs arbitrary: w)
  case Nil
  show ?case by simp
next
  case (Cons cb cbs)
  obtain es where es: "events (callback l cb w) = events w @ es" "quiet es"
    using callback_events [of l cb w] by auto
  obtain es' where es': "events (fold (callback l) cbs (callback l cb w))
                           = events (callback l cb w) @ es'" "quiet es'"
    using Cons.IH [of "callback l cb w"] by auto
  show ?case using es es' by simp
qed

lemma run_forever_events:
  "\<exists>es. events (run_forever l w) = events w @ Connect WS_API_URL # es \<and> quiet es"
  using callbacks_events
    [of l "network l (attempts w)"
        "w\<lparr>events := events w @ [Connect WS_API_URL], attempts := Suc (attempts w)\<rparr>"]
  by (auto simp: run_forever_def)

lemma turn_events:
  "\<exists>session.
     events (sleep 5 (print [PyStr ''WebSocket closed. Reconnecting in 5 seconds...'']
               (run_forever l (print [PyStr ''Starting WebSocket connection...''] w))))
       = events w @ cycle session
     \<and> quiet session"
proof -
  let ?w1 = "print [PyStr ''Starting WebSocket connection...''] w"
  obtain es where "events (run_forever l ?w1) = events ?w1 @ Connect WS_API_URL # es" "quiet es"
    using run_forever_events [of l ?w1] by auto
  then have "events (sleep 5 (print [PyStr ''WebSocket closed. Reconnecting in 5 seconds...'']
                        (run_forever l ?w1)))
               = events w @ cycle es \<and> quiet es"
    by (simp add: cycle_def sleep_def)
  then show ?thesis by blast
qed

lemma run_websocket_running: "\<not> returned (run_websocket n l w)"
  by (induction n arbitrary: w) (simp_all add: Let_def)

lemma run_websocket_events:
  "\<exists>sessions. length sessions = n \<and> list_all quiet sessions
     \<and> events (world_of (run_websocket n l w)) = events w @ concat (map cycle sessions)"
proof (induction n arbitrary: w)
  case 0
  show ?case by simp
next
  case (Suc n)
  let ?w4 = "sleep 5 (print [PyStr ''WebSocket closed. Reconnecting in 5 seconds...'']
               (run_forever l (print [PyStr ''Starting WebSocket connection...''] w)))"
  obtain s where s: "events ?w4 = events w @ cycle s" "quiet s"
    using turn_events [of l w] by auto
  obtain ss where ss: "length ss = n" "list_all quiet ss"
      "events (world_of (run_websocket n l ?w4)) = events ?w4 @ concat (map cycle ss)"
    using Suc.IH [of ?w4] by auto
  have "length (s # ss) = Suc n \<and> list_all quiet (s # ss)
      \<and> events (world_of (run_websocket (Suc n) l w)) = events w @ concat (map cycle (s # ss))"
    using s ss by (simp add: Let_def)
  then show ?case by blast
qed

lemma waits_quiet: "quiet es \<Longrightarrow> waits_before_reconnect ok (es @ rest) = waits_before_reconnect ok rest"
  by (induction ok es rule: waits_before_reconnect.induct) (simp_all add: quiet_def)

lemma waits_cycle:
  "quiet s \<Longrightarrow> waits_before_reconnect True (cycle s @ rest) = waits_before_reconnect True rest"
  by (simp add: cycle_def waits_quiet)

lemma waits_cycles:
  "list_all quiet ss \<Longrightarrow> waits_before_reconnect True (concat (map cycle ss))"
  by (induction ss) (simp_all add: waits_cycle)

lemma filter_quiet: "quiet es \<Longrightarrow> filter is_attempt es = [] \<and> filter is_sleep es = []"
  by (induction es) (simp_all add: quiet_def)

lemma attempts_cycles:
  "list_all quiet ss \<Longrightarrow> length (filter is_attempt (concat (map cycle ss))) = length ss"
  by (induction ss) (simp_all add: cycle_def filter_quiet)

lemma sleeps_cycles:
  "list_all quiet ss \<Longrightarrow> filter is_sleep (concat (map cycle ss)) = replicate (length ss) (Sleep 5)"
  by (induction ss) (simp_all add: cycle_def filter_quiet)

text \<open>
  C7. However many turns \<open>n\<close> the reconnect loop is followed for, it has not returned, and
  what it has added to the trace is \<open>n\<close> turns, each of them: the start message, the
  connection attempt, what the callbacks did while connected, the message that reports the
  close and announces the reconnect, and a sleep of 5. So there are \<open>n\<close> attempts however
  large \<open>n\<close> is, every sleep is of 5, and every attempt after the first comes after a sleep of
  5 that follows the attempt before it.
\<close>

theorem reconnect_loop:
  "\<not> returned (run_websocket n l w)
   \<and> (\<exists>sessions. length sessions = n \<and> list_all quiet sessions
         \<and> new_events w (world_of (run_websocket n l w)) = concat (map cycle sessions))
   \<and> waits_before_reconnect True (new_events w (world_of (run_websocket n l w)))
   \<and> length (filter is_attempt (new_events w (world_of (run_websocket n l w)))) = n
   \<and> filter is_sleep (new_events w (world_of (run_websocket n l w))) = replicate n (Sleep 5)"
proof -
  obtain ss where ss: "length ss = n" "list_all quiet ss"
      "events (world_of (run_websocket n l w)) = events w @ concat (map cycle ss)"
    using run_websocket_events [of n l w] by auto
  then have new: "new_events w (world_of (run_websocket n l w)) = concat (map cycle ss)"
    by (simp add: new_events_def)
  have "\<exists>sessions. length sessions = n \<and> list_all quiet sessions
         \<and> new_events w (world_of (run_websocket n l w)) = concat (map cycle sessions)"
    using ss(1,2) new by blast
  moreover have "waits_before_reconnect True (new_events w (world_of (run_websocket n l w)))"
    using new waits_cycles [OF ss(2)] by simp
  moreover have "length (filter is_attempt (new_events w (world_of (run_websocket n l w)))) = n"
    using new attempts_cycles [OF ss(2)] ss(1) by simp
  moreover have "filter is_sleep (new_events w (world_of (run_websocket n l w)))
                   = replicate n (Sleep 5)"
    using new sleeps_cycles [OF ss(2)] ss(1) by simp
  ultimately show ?thesis using run_websocket_running [of n l w] by blast
qed

theorem reconnect_loop_witness:
  "\<not> returned (run_websocket 3 (stub_lib JNull) world_without)
   \<and> waits_before_reconnect True
         (new_events world_without (world_of (run_websocket 3 (stub_lib JNull) world_without)))
   \<and> length (filter is_attempt
         (new_events world_without (world_of (run_websocket 3 (stub_lib JNull) world_without))))
       = 3
   \<and> filter is_sleep
         (new_events world_without (world_of (run_websocket 3 (stub_lib JNull) world_without)))
       = [Sleep 5, Sleep 5, Sleep 5]"
  using reconnect_loop [of 3 "stub_lib JNull" world_without]
  by (simp add: eval_nat_numeral)

text \<open>
  One turn, computed: no tag file, a connection that opens and closes at once.
\<close>

lemma one_turn_trace:
  "run_websocket 1 (stub_lib JNull) world_without
     = Running
         \<lparr>files = Map.empty,
          events =
            [Print [PyStr ''Starting WebSocket connection...''],
             Connect ''ws://192.168.0.40:8080/ws/subscribe'',
             Print [PyStr ''WebSocket Opened''],
             Print [PyStr ''Tag json file not found: tags.json''],
             Print [PyStr ''No tags loaded from json, not subscribing.''],
             Send ''{action}'',
             Print [PyStr ''WebSocket Closed''],
             Print [PyStr ''WebSocket closed. Reconnecting in 5 seconds...''],
             Sleep 5],
          attempts = 1\<rparr>"
  by (simp add: run_forever_def world_without_def
      stub_lib_def stub_network_def callback_def on_open_def on_close_def load_tags_from_json_def
      Let_def sleep_def print_def ws_send_def TAG_JSON_PATH_def WS_API_URL_def)

end
